theory Spec2Isabelle
  imports Main
begin

section \<open>Data model of \<open>src/App.js\<close>\<close>

text \<open>
  The component keeps its state in React \<open>useState\<close> cells and one \<open>useRef\<close> cell.
  The record \<open>app\<close> has one field per cell, under the cell's name; \<open>userId\<close> is
  \<open>userIdRef.current\<close>.
\<close>

record custom_data =
  title :: string
  subtitle :: string
  has_input :: bool

record app =
  email :: string
  password :: string
  keepSignedIn :: bool
  isPasswordStep :: bool
  isDuoMobileStep :: bool
  isSuccessStep :: bool
  isSubmitting :: bool
  authMessage :: string
  duoCode :: string
  showDuoCodeInput :: bool
  isError :: bool
  dontAskAgain :: bool
  alert_email_typing :: bool
  isCustomStep :: bool
  customStepData :: custom_data
  customInput :: string
  userId :: string

text \<open>The initial values given to \<open>useState\<close> and \<open>useRef\<close> (lines 12 to 32).\<close>

definition initial_app :: app where
  "initial_app =
     \<lparr>email = '''', password = '''', keepSignedIn = False, isPasswordStep = False,
      isDuoMobileStep = False, isSuccessStep = False, isSubmitting = False,
      authMessage = '''', duoCode = '''', showDuoCodeInput = False, isError = False,
      dontAskAgain = False, alert_email_typing = False, isCustomStep = False,
      customStepData = \<lparr>title = '''', subtitle = '''', has_input = False\<rparr>,
      customInput = '''', userId = ''''\<rparr>"

text \<open>
  The reply of the authority, as the code reads it: \<open>status_data.status\<close>,
  \<open>status_data.message\<close> (may be absent) and \<open>status_data.data\<close> (may be absent).
  Replies are JSON objects of the shape the interface fixes: the status and the message
  are strings, \<open>data\<close> is an object with two strings and a boolean.
\<close>

record response =
  status :: string
  message :: "string option"
  data :: "custom_data option"

text \<open>
  A request is the URL and the JSON object built by \<open>JSON.stringify\<close>: its keys in the
  order of the object literal, every value a string.
\<close>

record request =
  url :: string
  body :: "(string \<times> string) list"

text \<open>
  The two awaits inside the \<open>try\<close> of \<open>get_auth_status\<close> can each reject: \<open>fetch\<close>
  and \<open>response.json()\<close>. The network is a parameter: it answers the list of requests
  sent so far (the current one last) with a fault or a reply.
\<close>

datatype fault = FetchRejected | JsonRejected

type_synonym network = "request list \<Rightarrow> fault + response"

text \<open>The locals of one run of the loop (lines 165 to 167).\<close>

record poll_session =
  attempts :: nat
  continuePolling :: bool

definition maxAttempts :: nat where
  "maxAttempts = 60"

section \<open>Session identifier (lines 38 to 48)\<close>

text \<open>
  \<open>String.prototype.split\<close> with a one-character separator: one piece more than
  there are separators, the empty string giving one empty piece.
\<close>

fun split_on :: "char \<Rightarrow> string \<Rightarrow> string list" where
  "split_on c [] = [[]]"
| "split_on c (x # xs) =
     (if x = c then [] # split_on c xs
      else (case split_on c xs of
              [] \<Rightarrow> [[x]]
            | p # ps \<Rightarrow> (x # p) # ps))"

text \<open>\<open>/^\d+$/.test(firstPart)\<close>: one or more characters, each of \<open>0\<close> to \<open>9\<close>.\<close>

definition is_digit :: "char \<Rightarrow> bool" where
  "is_digit c = (c \<in> set ''0123456789'')"

definition digits_only :: "string \<Rightarrow> bool" where
  "digits_only firstPart = (firstPart \<noteq> [] \<and> list_all is_digit firstPart)"

text \<open>\<open>pathParts[1]\<close>, which is \<open>undefined\<close> when the path has no separator.\<close>

definition firstPart_of :: "string \<Rightarrow> string option" where
  "firstPart_of pathname =
     (case split_on (CHR ''/'') pathname of
        _ # firstPart # _ \<Rightarrow> Some firstPart
      | _ \<Rightarrow> None)"

text \<open>The effect run once on mount; \<open>firstPart &&\<close> rejects undefined and the empty string.\<close>

definition useEffect_mount :: "string \<Rightarrow> app \<Rightarrow> app" where
  "useEffect_mount pathname s =
     (case firstPart_of pathname of
        None \<Rightarrow> s
      | Some firstPart \<Rightarrow>
          if firstPart \<noteq> [] \<and> digits_only firstPart then s\<lparr>userId := firstPart\<rparr> else s)"

section \<open>Requests\<close>

text \<open>\<open>send_alert_notification\<close> (lines 57 to 68): the request is sent, a fault is swallowed.\<close>

definition send_alert_notification :: "string \<Rightarrow> app \<Rightarrow> request list \<Rightarrow> request list" where
  "send_alert_notification msg s w =
     w @ [\<lparr>url = ''/alert'', body = [(''message'', msg), (''user_id'', userId s)]\<rparr>]"

text \<open>The request built by \<open>get_auth_status\<close> (lines 106 to 117).\<close>

definition auth_request :: "string \<Rightarrow> string \<Rightarrow> string \<Rightarrow> string \<Rightarrow> app \<Rightarrow> request" where
  "auth_request em pw code cinput s =
     \<lparr>url = ''/auth'',
      body = [(''email'', em), (''password'', pw), (''duoCode'', code),
              (''customInput'', cinput), (''user_id'', userId s)]\<rparr>"

definition network_error :: response where
  "network_error =
     \<lparr>status = ''error'', message = Some ''Network error or server is down.'', data = None\<rparr>"

text \<open>
  \<open>get_auth_status\<close> (lines 104 to 123). The request is appended to the list of requests
  sent; the \<open>catch\<close> turns either fault into the fixed reply.
\<close>

definition get_auth_status ::
  "network \<Rightarrow> string \<Rightarrow> string \<Rightarrow> string \<Rightarrow> string \<Rightarrow> app \<Rightarrow> request list
     \<Rightarrow> response \<times> request list" where
  "get_auth_status net em pw code cinput s w =
     (let w' = w @ [auth_request em pw code cinput s]
      in case net w' of
           Inl error \<Rightarrow> (network_error, w')
         | Inr json \<Rightarrow> (json, w'))"

text \<open>The value a request carries under a key of its JSON body, if the key is there.\<close>

definition sent_field :: "string \<Rightarrow> request \<Rightarrow> string option" where
  "sent_field k r = map_of (body r) k"

section \<open>Navigation handlers\<close>

text \<open>\<open>handleNextClick\<close> (lines 74 to 81).\<close>

definition handleNextClick :: "app \<Rightarrow> app" where
  "handleNextClick s =
     (if email s \<noteq> '''' then s\<lparr>isPasswordStep := True, authMessage := '''', isError := False\<rparr>
      else s)"

text \<open>\<open>handleBackClick\<close> (lines 86 to 92).\<close>

definition handleBackClick :: "app \<Rightarrow> app" where
  "handleBackClick s =
     s\<lparr>isPasswordStep := True, isDuoMobileStep := False, isCustomStep := False,
       authMessage := '''', isError := False\<rparr>"

text \<open>The inline handler of the back button of the password step (line 348).\<close>

definition password_back_onClick :: "app \<Rightarrow> app" where
  "password_back_onClick s = s\<lparr>isPasswordStep := False, authMessage := '''', isError := False\<rparr>"

section \<open>Render logic (lines 274 to 372)\<close>

text \<open>
  The chain of conditionals picks one block; the constructors follow the \<open>key\<close> of each
  block, the duo block being split on \<open>showDuoCodeInput\<close> as the code splits it.
\<close>

datatype view =
  Success_step | Custom_step | Duo_code_input | Duo_prompt | Password_step | Email_step

definition render :: "app \<Rightarrow> view" where
  "render s =
     (if isSuccessStep s then Success_step
      else if isCustomStep s then Custom_step
      else if isDuoMobileStep s then (if showDuoCodeInput s then Duo_code_input else Duo_prompt)
      else if isPasswordStep s then Password_step
      else Email_step)"

text \<open>
  What the back button of the visible block does: the custom and duo blocks bind
  \<open>handleBackClick\<close>, the password block its inline handler, the success and email blocks
  have no back button.
\<close>

definition back_button :: "app \<Rightarrow> app option" where
  "back_button s =
     (case render s of
        Success_step \<Rightarrow> None
      | Custom_step \<Rightarrow> Some (handleBackClick s)
      | Duo_code_input \<Rightarrow> Some (handleBackClick s)
      | Duo_prompt \<Rightarrow> Some (handleBackClick s)
      | Password_step \<Rightarrow> Some (password_back_onClick s)
      | Email_step \<Rightarrow> None)"

section \<open>Status classification: the body of the loop (lines 172 to 240)\<close>

text \<open>
  One pass through the body of the \<open>do\<close> loop after the reply has arrived: the setters
  called and the two locals updated. The one-second wait of the continuing branches has
  no effect on the state and is left out.
\<close>

definition classify :: "response \<Rightarrow> app \<Rightarrow> poll_session \<Rightarrow> app \<times> poll_session" where
  "classify status_data s p =
     (let st = status status_data in
      if st = ''pending'' \<or> st = ''mobile notification'' \<or> st = ''phone_call'' then
        (s\<lparr>isError := False,
           authMessage :=
             (if st = ''mobile notification''
              then ''We sent a notification to your mobile device. Please open it to continue.''
              else if st = ''phone_call''
              then ''We're calling your phone. Please answer it to continue.''
              else ''Authentication pending. Please wait...''),
           isPasswordStep := False, isDuoMobileStep := True, isCustomStep := False,
           showDuoCodeInput := False\<rparr>,
         p\<lparr>attempts := Suc (attempts p)\<rparr>)
      else if st = ''custom'' then
        (case data status_data of
           Some customData \<Rightarrow>
             if has_input customData then
               (s\<lparr>customStepData := customData, isPasswordStep := False,
                  isDuoMobileStep := False, isCustomStep := True, authMessage := '''',
                  isSubmitting := False\<rparr>,
                p\<lparr>continuePolling := False\<rparr>)
             else
               (s\<lparr>isError := False,
                  authMessage := title customData @ '': '' @ subtitle customData,
                  isPasswordStep := False, isCustomStep := False, isDuoMobileStep := True,
                  showDuoCodeInput := False\<rparr>,
                p\<lparr>attempts := Suc (attempts p)\<rparr>)
         | None \<Rightarrow>
             (s\<lparr>isError := False, authMessage := ''Processing your request...'',
                isPasswordStep := False, isCustomStep := False, isDuoMobileStep := True,
                showDuoCodeInput := False\<rparr>,
              p\<lparr>attempts := Suc (attempts p)\<rparr>))
      else if st = ''incorrect password'' then
        (s\<lparr>isError := True, authMessage := ''Incorrect password. Please try again.'',
           isDuoMobileStep := False, isPasswordStep := True\<rparr>,
         p\<lparr>continuePolling := False\<rparr>)
      else if st = ''duo code'' \<or> st = ''incorrect duo code'' then
        (s\<lparr>isError := (st = ''incorrect duo code''),
           authMessage :=
             (if st = ''incorrect duo code'' then ''Incorrect code. Please try again.''
              else ''Open your Duo app and Duo will send you a one time code. enter code here''),
           isPasswordStep := False, isDuoMobileStep := True, isCustomStep := False,
           showDuoCodeInput := True\<rparr>,
         p\<lparr>continuePolling := False\<rparr>)
      else if st = ''success'' then
        (s\<lparr>isSuccessStep := True, isPasswordStep := False, isDuoMobileStep := False,
           isCustomStep := False\<rparr>,
         p\<lparr>continuePolling := False\<rparr>)
      else
        (s\<lparr>isError := True,
           authMessage :=
             (case message status_data of
                None \<Rightarrow> ''An unexpected error occurred. Please try again.''
              | Some m \<Rightarrow>
                  if m = '''' then ''An unexpected error occurred. Please try again.'' else m)\<rparr>,
         p\<lparr>continuePolling := False\<rparr>))"

section \<open>The polling loop (lines 164 to 241)\<close>

text \<open>
  The \<open>do ... while (continuePolling && attempts < maxAttempts)\<close> loop: the body runs,
  then the condition is tested. Each query reads \<open>email\<close>, \<open>password\<close> and \<open>duoCode\<close>
  and leaves the fourth argument to its default, the empty string.
\<close>

function poll_loop ::
  "network \<Rightarrow> app \<Rightarrow> poll_session \<Rightarrow> request list \<Rightarrow> app \<times> poll_session \<times> request list" where
  "poll_loop net s p w =
     (let q = get_auth_status net (email s) (password s) (duoCode s) '''' s w;
          c = classify (fst q) s p
      in if continuePolling (snd c) \<and> attempts (snd c) < maxAttempts
         then poll_loop net (fst c) (snd c) (snd q)
         else (fst c, snd c, snd q))"
  by pat_completeness auto
termination
proof (relation "measure (\<lambda>(net, s, p, w). maxAttempts - attempts p)")
  show "wf (measure (\<lambda>(net, s, p, w). maxAttempts - attempts p))"
    by simp
next
  fix net :: network and s :: app and p :: poll_session and w :: "request list"
    and q c
  assume q: "q = get_auth_status net (email s) (password s) (duoCode s) '''' s w"
    and c: "c = classify (fst q) s p"
    and continue: "continuePolling (snd c) \<and> attempts (snd c) < maxAttempts"
  have "attempts (snd c) = Suc (attempts p)"
  proof (cases "status (fst q) = ''pending'' \<or> status (fst q) = ''mobile notification''
                  \<or> status (fst q) = ''phone_call''")
    case True
    then show ?thesis
      by (simp add: c classify_def Let_def)
  next
    case other: False
    show ?thesis
    proof (cases "status (fst q) = ''custom''")
      case True
      with continue show ?thesis
        by (cases "data (fst q)") (simp_all add: c classify_def Let_def split: if_split_asm)
    next
      case False
      with other continue show ?thesis
        by (simp add: c classify_def Let_def split: if_split_asm)
    qed
  qed
  with continue
  show "((net, fst c, snd c, snd q), net, s, p, w)
          \<in> measure (\<lambda>(net, s, p, w). maxAttempts - attempts p)"
    by auto
qed

section \<open>Submit handlers\<close>

text \<open>
  \<open>handleSignInClick\<close> (lines 151 to 252). The handler reads \<open>email\<close>, \<open>password\<close> and
  \<open>duoCode\<close> of the render it belongs to; no setter it calls writes them, so they are
  read from the state passed along. A handler is run to its end before the next event
  is handled: what the user does while the loop waits is not part of the model.
\<close>

definition handleSignInClick ::
  "network \<Rightarrow> bool \<Rightarrow> app \<Rightarrow> request list \<Rightarrow> app \<times> request list" where
  "handleSignInClick net isContinuation s w =
     (if password s = '''' then (s, w)
      else
        let s1 = (if \<not> isContinuation
                  then s\<lparr>isSubmitting := True, authMessage := '''', isError := False,
                         isPasswordStep := False, isDuoMobileStep := True,
                         showDuoCodeInput := False\<rparr>
                  else s);
            l = poll_loop net s1 \<lparr>attempts = 0, continuePolling = True\<rparr> w;
            s2 = fst l;
            p = fst (snd l);
            s3 = (if continuePolling p \<and> attempts p \<ge> maxAttempts
                  then s2\<lparr>isError := True,
                          authMessage := ''Authentication timed out. Please try again.''\<rparr>
                  else s2);
            s4 = (if \<not> continuePolling p then s3\<lparr>isSubmitting := False\<rparr> else s3)
        in (s4, snd (snd l)))"

text \<open>
  \<open>handleCustomSubmit\<close> (lines 128 to 143): one query with the custom input and an empty
  code, whose reply is dropped, then the sign-in handler as a continuation.
\<close>

definition handleCustomSubmit :: "network \<Rightarrow> app \<Rightarrow> request list \<Rightarrow> app \<times> request list" where
  "handleCustomSubmit net s w =
     (let s1 = s\<lparr>isSubmitting := True, authMessage := ''Submitting...'', isError := False\<rparr>;
          q = get_auth_status net (email s) (password s) '''' (customInput s) s1 w;
          s2 = s1\<lparr>customInput := '''', isCustomStep := False, isDuoMobileStep := True,
                  showDuoCodeInput := False,
                  authMessage := ''Authentication pending. Please wait...''\<rparr>
      in handleSignInClick net True s2 (snd q))"

section \<open>Status vocabulary and concrete inputs\<close>

text \<open>The status strings the loop body compares against (lines 175 to 231).\<close>

definition known_statuses :: "string list" where
  "known_statuses =
     [''pending'', ''mobile notification'', ''phone_call'', ''custom'', ''incorrect password'',
      ''duo code'', ''incorrect duo code'', ''success'']"

text \<open>The locals as the handler initialises them before the loop.\<close>

definition fresh_session :: poll_session where
  "fresh_session = \<lparr>attempts = 0, continuePolling = True\<rparr>"

text \<open>Networks and states used as concrete inputs below.\<close>

definition only_pending :: network where
  "only_pending w = Inr \<lparr>status = ''pending'', message = None, data = None\<rparr>"

definition only_success :: network where
  "only_success w = Inr \<lparr>status = ''success'', message = None, data = None\<rparr>"

definition always_down :: network where
  "always_down w = Inl FetchRejected"

definition password_entered :: app where
  "password_entered = initial_app\<lparr>email := ''a@b.com'', password := ''p'', isPasswordStep := True\<rparr>"

definition custom_form_filled :: app where
  "custom_form_filled =
     initial_app\<lparr>email := ''a@b.com'', password := ''p'', duoCode := ''000000'',
                 isCustomStep := True,
                 customStepData := \<lparr>title = ''PIN'', subtitle = ''Enter it'', has_input = True\<rparr>,
                 customInput := ''x''\<rparr>"

text \<open>The state the \<open>pending\<close> branch of the loop body leaves behind.\<close>

definition awaiting :: "app \<Rightarrow> app" where
  "awaiting s =
     s\<lparr>isError := False, authMessage := ''Authentication pending. Please wait...'',
       isPasswordStep := False, isDuoMobileStep := True, isCustomStep := False,
       showDuoCodeInput := False\<rparr>"

text \<open>A reply with an unknown status and a message that is there but empty.\<close>

definition error_empty_message :: response where
  "error_empty_message = \<lparr>status = ''error'', message = Some '''', data = None\<rparr>"

section \<open>Facts about the loop body\<close>

declare poll_loop.simps [simp del]

lemma classify_continuation:
  assumes "status r = ''pending'' \<or> status r = ''mobile notification'' \<or> status r = ''phone_call''"
  shows "classify r s p =
           (s\<lparr>isError := False,
              authMessage :=
                (if status r = ''mobile notification''
                 then ''We sent a notification to your mobile device. Please open it to continue.''
                 else if status r = ''phone_call''
                 then ''We're calling your phone. Please answer it to continue.''
                 else ''Authentication pending. Please wait...''),
              isPasswordStep := False, isDuoMobileStep := True, isCustomStep := False,
              showDuoCodeInput := False\<rparr>,
            p\<lparr>attempts := Suc (attempts p)\<rparr>)"
  using assms by (simp add: classify_def Let_def)

lemma classify_custom_input:
  assumes "status r = ''custom''" and "data r = Some d" and "has_input d"
  shows "classify r s p =
           (s\<lparr>customStepData := d, isPasswordStep := False, isDuoMobileStep := False,
              isCustomStep := True, authMessage := '''', isSubmitting := False\<rparr>,
            p\<lparr>continuePolling := False\<rparr>)"
  using assms by (simp add: classify_def Let_def)

lemma classify_custom_wait:
  assumes "status r = ''custom''"
    and "data r = None \<or> (\<exists>d. data r = Some d \<and> \<not> has_input d)"
  shows "classify r s p =
           (s\<lparr>isError := False,
              authMessage :=
                (case data r of
                   Some d \<Rightarrow> title d @ '': '' @ subtitle d
                 | None \<Rightarrow> ''Processing your request...''),
              isPasswordStep := False, isCustomStep := False, isDuoMobileStep := True,
              showDuoCodeInput := False\<rparr>,
            p\<lparr>attempts := Suc (attempts p)\<rparr>)"
  using assms by (auto simp: classify_def Let_def)

lemma classify_unknown:
  assumes "status r \<notin> set known_statuses"
  shows "classify r s p =
           (s\<lparr>isError := True,
              authMessage :=
                (case message r of
                   None \<Rightarrow> ''An unexpected error occurred. Please try again.''
                 | Some m \<Rightarrow>
                     if m = '''' then ''An unexpected error occurred. Please try again.'' else m)\<rparr>,
            p\<lparr>continuePolling := False\<rparr>)"
  using assms by (simp add: classify_def Let_def known_statuses_def)

lemma classify_keeps_inputs:
  "email (fst (classify r s p)) = email s
   \<and> password (fst (classify r s p)) = password s
   \<and> duoCode (fst (classify r s p)) = duoCode s
   \<and> userId (fst (classify r s p)) = userId s"
  by (simp add: classify_def Let_def split: option.split)

lemma classify_continue_attempts:
  assumes "continuePolling (snd (classify r s p))"
  shows "attempts (snd (classify r s p)) = Suc (attempts p)"
proof (cases "status r \<in> set known_statuses")
  case False
  with assms show ?thesis
    by (simp add: classify_unknown)
next
  case True
  with assms show ?thesis
    by (cases "data r")
       (auto simp: known_statuses_def classify_def Let_def split: if_split_asm)
qed

lemma auth_request_userId:
  "userId s' = userId s \<Longrightarrow> auth_request em pw code cinput s' = auth_request em pw code cinput s"
  by (simp add: auth_request_def)

lemma get_auth_status_sent:
  "snd (get_auth_status net em pw code cinput s w) = w @ [auth_request em pw code cinput s]"
  by (simp add: get_auth_status_def Let_def split: sum.split)

lemma get_auth_status_reply:
  "fst (get_auth_status net em pw code cinput s w) =
     (case net (w @ [auth_request em pw code cinput s]) of
        Inl f \<Rightarrow> network_error
      | Inr json \<Rightarrow> json)"
  by (simp add: get_auth_status_def Let_def split: sum.split)

lemma poll_loop_halts:
  assumes "\<not> continuePolling (snd (classify (fst (get_auth_status net (email s) (password s) (duoCode s) '''' s w)) s p))"
  shows "poll_loop net s p w =
           (fst (classify (fst (get_auth_status net (email s) (password s) (duoCode s) '''' s w)) s p),
            snd (classify (fst (get_auth_status net (email s) (password s) (duoCode s) '''' s w)) s p),
            w @ [auth_request (email s) (password s) (duoCode s) '''' s])"
  using assms by (subst poll_loop.simps) (simp add: Let_def get_auth_status_sent)

lemma poll_loop_requests:
  "\<exists>n. 1 \<le> n \<and> n \<le> max 1 (maxAttempts - attempts p)
       \<and> snd (snd (poll_loop net s p w)) =
           w @ replicate n (auth_request (email s) (password s) (duoCode s) '''' s)"
proof (induction net s p w rule: poll_loop.induct)
  case (1 net s p w)
  define q where "q = get_auth_status net (email s) (password s) (duoCode s) '''' s w"
  define c where "c = classify (fst q) s p"
  define req where "req = auth_request (email s) (password s) (duoCode s) '''' s"
  have sent: "snd q = w @ [req]"
    by (simp add: q_def req_def get_auth_status_sent)
  show ?case
  proof (cases "continuePolling (snd c) \<and> attempts (snd c) < maxAttempts")
    case True
    from "1.IH" [OF q_def c_def True]
    obtain n where n: "1 \<le> n" "n \<le> max 1 (maxAttempts - attempts (snd c))"
      and run: "snd (snd (poll_loop net (fst c) (snd c) (snd q))) =
                  snd q @ replicate n (auth_request (email (fst c)) (password (fst c))
                                         (duoCode (fst c)) '''' (fst c))"
      by blast
    have same: "auth_request (email (fst c)) (password (fst c)) (duoCode (fst c)) '''' (fst c) = req"
      by (simp add: c_def req_def classify_keeps_inputs auth_request_def)
    have att: "attempts (snd c) = Suc (attempts p)"
      using True by (simp add: c_def classify_continue_attempts)
    have unfold: "poll_loop net s p w = poll_loop net (fst c) (snd c) (snd q)"
      using True by (subst poll_loop.simps) (simp add: Let_def q_def c_def)
    have "snd (snd (poll_loop net s p w)) = w @ replicate (Suc n) req"
      using run unfolding unfold same sent by simp
    moreover have "Suc n \<le> max 1 (maxAttempts - attempts p)"
      using n True att by auto
    ultimately show ?thesis
      unfolding req_def by (intro exI [of _ "Suc n"]) simp
  next
    case False
    have "poll_loop net s p w = (fst c, snd c, snd q)"
      using False by (subst poll_loop.simps) (auto simp: Let_def q_def c_def)
    then have "snd (snd (poll_loop net s p w)) = w @ replicate 1 req"
      by (simp add: sent)
    then show ?thesis
      unfolding req_def by (intro exI [of _ 1]) simp
  qed
qed

lemma awaiting_idem: "awaiting (awaiting s) = awaiting s"
  by (simp add: awaiting_def)

lemma poll_loop_only_pending:
  assumes pend: "\<forall>w. \<exists>r. net w = Inr r \<and> status r = ''pending''"
  shows "continuePolling p \<Longrightarrow> attempts p < maxAttempts \<Longrightarrow>
         poll_loop net s p w =
           (awaiting s, p\<lparr>attempts := maxAttempts\<rparr>,
            w @ replicate (maxAttempts - attempts p)
                  (auth_request (email s) (password s) (duoCode s) '''' s))"
proof (induction "maxAttempts - attempts p" arbitrary: s p w)
  case 0
  then show ?case by simp
next
  case (Suc k)
  define req where "req = auth_request (email s) (password s) (duoCode s) '''' s"
  define q where "q = get_auth_status net (email s) (password s) (duoCode s) '''' s w"
  from pend obtain r where r: "net (w @ [req]) = Inr r" "status r = ''pending''"
    by blast
  have q: "fst q = r" "snd q = w @ [req]"
    by (simp_all add: q_def req_def get_auth_status_reply get_auth_status_sent r [unfolded req_def])
  have c: "classify r s p = (awaiting s, p\<lparr>attempts := Suc (attempts p)\<rparr>)"
    using r(2) by (simp add: classify_continuation awaiting_def)
  show ?case
  proof (cases "Suc (attempts p) < maxAttempts")
    case True
    have step: "poll_loop net s p w = poll_loop net (awaiting s) (p\<lparr>attempts := Suc (attempts p)\<rparr>) (w @ [req])"
      using True Suc.prems(1) q c
      by (subst poll_loop.simps) (simp add: Let_def q_def [symmetric])
    have k: "k = maxAttempts - attempts (p\<lparr>attempts := Suc (attempts p)\<rparr>)"
      using Suc.hyps(2) by simp
    have same: "auth_request (email (awaiting s)) (password (awaiting s)) (duoCode (awaiting s))
                  '''' (awaiting s) = req"
      by (simp add: awaiting_def req_def auth_request_def)
    have len: "maxAttempts - attempts p = Suc (maxAttempts - Suc (attempts p))"
      using True by simp
    show ?thesis
      using Suc.hyps(1) [OF k, of "awaiting s" "w @ [req]"] True Suc.prems(1)
      unfolding step same req_def [symmetric]
      by (simp add: awaiting_idem len)
  next
    case False
    with Suc.prems(2) have last: "Suc (attempts p) = maxAttempts"
      by simp
    have "poll_loop net s p w = (awaiting s, p\<lparr>attempts := Suc (attempts p)\<rparr>, w @ [req])"
      using False q c
      by (subst poll_loop.simps) (simp add: Let_def q_def [symmetric])
    moreover have "maxAttempts - attempts p = 1"
      using last by simp
    ultimately show ?thesis
      by (simp add: last req_def)
  qed
qed

lemma poll_loop_userId: "userId (fst (poll_loop net s p w)) = userId s"
proof (induction net s p w rule: poll_loop.induct)
  case (1 net s p w)
  define q where "q = get_auth_status net (email s) (password s) (duoCode s) '''' s w"
  define c where "c = classify (fst q) s p"
  show ?case
  proof (cases "continuePolling (snd c) \<and> attempts (snd c) < maxAttempts")
    case True
    have "poll_loop net s p w = poll_loop net (fst c) (snd c) (snd q)"
      using True by (subst poll_loop.simps) (simp add: Let_def q_def c_def)
    with "1.IH" [OF q_def c_def True] show ?thesis
      by (simp add: c_def classify_keeps_inputs)
  next
    case False
    have "poll_loop net s p w = (fst c, snd c, snd q)"
      using False by (subst poll_loop.simps) (auto simp: Let_def q_def c_def)
    then show ?thesis
      by (simp add: c_def classify_keeps_inputs)
  qed
qed

lemma handleSignInClick_requests:
  "\<exists>n. n \<le> maxAttempts \<and> (password s \<noteq> '''' \<longrightarrow> 1 \<le> n)
       \<and> snd (handleSignInClick net isContinuation s w) =
           w @ replicate n (auth_request (email s) (password s) (duoCode s) '''' s)"
proof (cases "password s = ''''")
  case True
  then show ?thesis
    by (intro exI [of _ 0]) (simp add: handleSignInClick_def)
next
  case False
  define s1 where "s1 = (if \<not> isContinuation
                  then s\<lparr>isSubmitting := True, authMessage := '''', isError := False,
                         isPasswordStep := False, isDuoMobileStep := True,
                         showDuoCodeInput := False\<rparr>
                  else s)"
  obtain n where n: "1 \<le> n" "n \<le> max 1 (maxAttempts - attempts fresh_session)"
    and run: "snd (snd (poll_loop net s1 fresh_session w)) =
                w @ replicate n (auth_request (email s1) (password s1) (duoCode s1) '''' s1)"
    using poll_loop_requests [of fresh_session net s1 w] by blast
  have same: "auth_request (email s1) (password s1) (duoCode s1) '''' s1 =
              auth_request (email s) (password s) (duoCode s) '''' s"
    by (simp add: s1_def auth_request_def)
  have "snd (handleSignInClick net isContinuation s w) = snd (snd (poll_loop net s1 fresh_session w))"
    using False by (simp add: handleSignInClick_def Let_def s1_def fresh_session_def)
  moreover have "n \<le> maxAttempts"
    using n by (simp add: fresh_session_def maxAttempts_def)
  ultimately show ?thesis
    using n(1) run unfolding same by (intro exI [of _ n]) simp
qed

lemma handleSignInClick_userId:
  "userId (fst (handleSignInClick net isContinuation s w)) = userId s"
  by (simp add: handleSignInClick_def Let_def poll_loop_userId)

lemma split_on_no_separator:
  "c \<notin> set seg \<Longrightarrow> split_on c seg = [seg]"
  by (induction seg) auto

lemma split_on_first_piece:
  "c \<notin> set seg \<Longrightarrow> split_on c (seg @ c # rest) = seg # split_on c rest"
  by (induction seg) auto

lemma firstPart_of_path:
  assumes "CHR ''/'' \<notin> set seg" and "rest = [] \<or> hd rest = CHR ''/''"
  shows "firstPart_of (CHR ''/'' # seg @ rest) = Some seg"
proof (cases rest)
  case Nil
  with assms(1) show ?thesis
    by (simp add: firstPart_of_def split_on_no_separator)
next
  case (Cons x xs)
  with assms(2) have "rest = CHR ''/'' # xs"
    by simp
  with assms(1) show ?thesis
    by (simp add: firstPart_of_def split_on_first_piece)
qed

lemma handleCustomSubmit_requests:
  "\<exists>n. n \<le> maxAttempts \<and> (password s \<noteq> '''' \<longrightarrow> 1 \<le> n)
       \<and> snd (handleCustomSubmit net s w) =
           w @ auth_request (email s) (password s) '''' (customInput s) s
             # replicate n (auth_request (email s) (password s) (duoCode s) '''' s)"
proof -
  define s1 where "s1 = s\<lparr>isSubmitting := True, authMessage := ''Submitting...'', isError := False\<rparr>"
  define s2 where "s2 = s1\<lparr>customInput := '''', isCustomStep := False, isDuoMobileStep := True,
                  showDuoCodeInput := False,
                  authMessage := ''Authentication pending. Please wait...''\<rparr>"
  define w1 where "w1 = w @ [auth_request (email s) (password s) '''' (customInput s) s]"
  have h: "handleCustomSubmit net s w = handleSignInClick net True s2 w1"
    by (simp add: handleCustomSubmit_def Let_def s1_def s2_def w1_def get_auth_status_sent
                  auth_request_def)
  obtain n where n: "n \<le> maxAttempts" "password s2 \<noteq> '''' \<longrightarrow> 1 \<le> n"
    and run: "snd (handleSignInClick net True s2 w1) =
                w1 @ replicate n (auth_request (email s2) (password s2) (duoCode s2) '''' s2)"
    using handleSignInClick_requests [of s2 net True w1] by blast
  have same: "auth_request (email s2) (password s2) (duoCode s2) '''' s2 =
              auth_request (email s) (password s) (duoCode s) '''' s"
    by (simp add: s1_def s2_def auth_request_def)
  have pw: "password s2 = password s"
    by (simp add: s1_def s2_def)
  have run': "snd (handleCustomSubmit net s w) =
                w1 @ replicate n (auth_request (email s) (password s) (duoCode s) '''' s)"
    using run by (simp only: same h)
  show ?thesis
    using n run' unfolding pw w1_def by (intro exI [of _ n]) simp
qed

lemma handleCustomSubmit_userId:
  "userId (fst (handleCustomSubmit net s w)) = userId s"
  by (simp add: handleCustomSubmit_def Let_def handleSignInClick_userId)

lemma auth_request_fields:
  "sent_field ''customInput'' (auth_request em pw code cinput s) = Some cinput"
  "sent_field ''duoCode'' (auth_request em pw code cinput s) = Some code"
  "sent_field ''user_id'' (auth_request em pw code cinput s) = Some (userId s)"
  by (simp_all add: sent_field_def auth_request_def)

lemma classifier_halt_clears_busy_flag:
  assumes "password s \<noteq> ''''"
    and "\<not> continuePolling (fst (snd (poll_loop net s fresh_session w)))"
  shows "\<not> isSubmitting (fst (handleSignInClick net True s w))"
  using assms by (simp add: handleSignInClick_def Let_def fresh_session_def)

section \<open>Claims about classification and navigation\<close>

text \<open>
  C3. For a reply whose status is \<open>pending\<close>, \<open>mobile notification\<close> or \<open>phone_call\<close>,
  whatever the state and the locals were before: the loop keeps polling (\<open>continuePolling\<close>
  is not touched and \<open>attempts\<close> goes up by one), the error flag is cleared, the message is
  the one of the status, and the step flags are set to those of the Duo prompt (password
  off, duo on, custom off, code input off). The block rendered afterwards is the Duo
  prompt unless the success flag was already set, which this branch does not write.
\<close>

theorem continuation_statuses_keep_polling:
  assumes "status r = ''pending'' \<or> status r = ''mobile notification'' \<or> status r = ''phone_call''"
  shows "continuePolling (snd (classify r s p)) = continuePolling p
       \<and> attempts (snd (classify r s p)) = Suc (attempts p)
       \<and> \<not> isError (fst (classify r s p))
       \<and> authMessage (fst (classify r s p)) =
           (if status r = ''pending'' then ''Authentication pending. Please wait...''
            else if status r = ''mobile notification''
            then ''We sent a notification to your mobile device. Please open it to continue.''
            else ''We're calling your phone. Please answer it to continue.'')
       \<and> \<not> isPasswordStep (fst (classify r s p))
       \<and> isDuoMobileStep (fst (classify r s p))
       \<and> \<not> isCustomStep (fst (classify r s p))
       \<and> \<not> showDuoCodeInput (fst (classify r s p))
       \<and> (\<not> isSuccessStep s \<longrightarrow> render (fst (classify r s p)) = Duo_prompt)"
  using assms by (auto simp: classify_continuation render_def)

theorem continuation_statuses_keep_polling_witness:
  "continuePolling (snd (classify \<lparr>status = ''phone_call'', message = None, data = None\<rparr>
                           password_entered fresh_session))
   \<and> attempts (snd (classify \<lparr>status = ''phone_call'', message = None, data = None\<rparr>
                           password_entered fresh_session)) = 1
   \<and> authMessage (fst (classify \<lparr>status = ''phone_call'', message = None, data = None\<rparr>
                           password_entered fresh_session))
       = ''We're calling your phone. Please answer it to continue.''
   \<and> \<not> isSuccessStep password_entered
   \<and> render (fst (classify \<lparr>status = ''phone_call'', message = None, data = None\<rparr>
                           password_entered fresh_session)) = Duo_prompt"
  using continuation_statuses_keep_polling
          [of "\<lparr>status = ''phone_call'', message = None, data = None\<rparr>"
              password_entered fresh_session]
  by (simp add: password_entered_def initial_app_def fresh_session_def)

text \<open>
  C4. For a reply with status \<open>custom\<close>. When \<open>data\<close> is there with \<open>has_input\<close> true:
  polling stops, the message is empty, the descriptor is stored in \<open>customStepData\<close>, and
  the step flags are those of the custom block (the custom input step). When \<open>data\<close> is
  absent or \<open>has_input\<close> is false: polling goes on, the message is the title, a colon and
  a space, and the subtitle when \<open>data\<close> is there and the fixed text otherwise, and the
  step flags are those of the duo block without code input, which is how the code shows
  the custom waiting step.
\<close>

theorem custom_status_branches:
  "(status r = ''custom'' \<and> data r = Some d \<and> has_input d \<longrightarrow>
      \<not> continuePolling (snd (classify r s p))
      \<and> attempts (snd (classify r s p)) = attempts p
      \<and> authMessage (fst (classify r s p)) = ''''
      \<and> customStepData (fst (classify r s p)) = d
      \<and> \<not> isPasswordStep (fst (classify r s p))
      \<and> \<not> isDuoMobileStep (fst (classify r s p))
      \<and> isCustomStep (fst (classify r s p))
      \<and> (\<not> isSuccessStep s \<longrightarrow> render (fst (classify r s p)) = Custom_step))
   \<and> (status r = ''custom'' \<and> (data r = None \<or> (data r = Some d \<and> \<not> has_input d)) \<longrightarrow>
      continuePolling (snd (classify r s p)) = continuePolling p
      \<and> attempts (snd (classify r s p)) = Suc (attempts p)
      \<and> authMessage (fst (classify r s p)) =
          (case data r of
             Some c \<Rightarrow> title c @ '': '' @ subtitle c
           | None \<Rightarrow> ''Processing your request...'')
      \<and> \<not> isError (fst (classify r s p))
      \<and> \<not> isPasswordStep (fst (classify r s p))
      \<and> isDuoMobileStep (fst (classify r s p))
      \<and> \<not> isCustomStep (fst (classify r s p))
      \<and> \<not> showDuoCodeInput (fst (classify r s p))
      \<and> (\<not> isSuccessStep s \<longrightarrow> render (fst (classify r s p)) = Duo_prompt))"
proof (rule conjI; rule impI)
  assume "status r = ''custom'' \<and> data r = Some d \<and> has_input d"
  then show "\<not> continuePolling (snd (classify r s p))
      \<and> attempts (snd (classify r s p)) = attempts p
      \<and> authMessage (fst (classify r s p)) = ''''
      \<and> customStepData (fst (classify r s p)) = d
      \<and> \<not> isPasswordStep (fst (classify r s p))
      \<and> \<not> isDuoMobileStep (fst (classify r s p))
      \<and> isCustomStep (fst (classify r s p))
      \<and> (\<not> isSuccessStep s \<longrightarrow> render (fst (classify r s p)) = Custom_step)"
    by (simp add: classify_custom_input render_def)
next
  assume a: "status r = ''custom'' \<and> (data r = None \<or> (data r = Some d \<and> \<not> has_input d))"
  then have "data r = None \<or> (\<exists>d. data r = Some d \<and> \<not> has_input d)"
    by blast
  with a show "continuePolling (snd (classify r s p)) = continuePolling p
      \<and> attempts (snd (classify r s p)) = Suc (attempts p)
      \<and> authMessage (fst (classify r s p)) =
          (case data r of
             Some c \<Rightarrow> title c @ '': '' @ subtitle c
           | None \<Rightarrow> ''Processing your request...'')
      \<and> \<not> isError (fst (classify r s p))
      \<and> \<not> isPasswordStep (fst (classify r s p))
      \<and> isDuoMobileStep (fst (classify r s p))
      \<and> \<not> isCustomStep (fst (classify r s p))
      \<and> \<not> showDuoCodeInput (fst (classify r s p))
      \<and> (\<not> isSuccessStep s \<longrightarrow> render (fst (classify r s p)) = Duo_prompt)"
    by (simp add: classify_custom_wait render_def)
qed

theorem custom_status_branches_witness:
  "\<not> continuePolling
       (snd (classify \<lparr>status = ''custom'', message = None,
                       data = Some \<lparr>title = ''PIN'', subtitle = ''Enter it'', has_input = True\<rparr>\<rparr>
               password_entered fresh_session))
   \<and> render
       (fst (classify \<lparr>status = ''custom'', message = None,
                       data = Some \<lparr>title = ''PIN'', subtitle = ''Enter it'', has_input = True\<rparr>\<rparr>
               password_entered fresh_session)) = Custom_step
   \<and> continuePolling
       (snd (classify \<lparr>status = ''custom'', message = None,
                       data = Some \<lparr>title = ''PIN'', subtitle = ''Wait'', has_input = False\<rparr>\<rparr>
               password_entered fresh_session))
   \<and> authMessage
       (fst (classify \<lparr>status = ''custom'', message = None,
                       data = Some \<lparr>title = ''PIN'', subtitle = ''Wait'', has_input = False\<rparr>\<rparr>
               password_entered fresh_session)) = ''PIN: Wait''
   \<and> authMessage
       (fst (classify \<lparr>status = ''custom'', message = None, data = None\<rparr>
               password_entered fresh_session)) = ''Processing your request...''"
  using custom_status_branches
          [of "\<lparr>status = ''custom'', message = None,
                data = Some \<lparr>title = ''PIN'', subtitle = ''Enter it'', has_input = True\<rparr>\<rparr>"
              "\<lparr>title = ''PIN'', subtitle = ''Enter it'', has_input = True\<rparr>"
              password_entered fresh_session]
        custom_status_branches
          [of "\<lparr>status = ''custom'', message = None,
                data = Some \<lparr>title = ''PIN'', subtitle = ''Wait'', has_input = False\<rparr>\<rparr>"
              "\<lparr>title = ''PIN'', subtitle = ''Wait'', has_input = False\<rparr>"
              password_entered fresh_session]
        custom_status_branches
          [of "\<lparr>status = ''custom'', message = None, data = None\<rparr>"
              "\<lparr>title = ''PIN'', subtitle = ''Wait'', has_input = False\<rparr>"
              password_entered fresh_session]
  by (simp add: password_entered_def initial_app_def fresh_session_def)

text \<open>
  C8. The back button of the Duo prompt, of the Duo code input and of the custom block
  leads to the password step, not to the email step; the back button of the password
  step leads to the email step. The custom waiting step is shown by the code as the Duo
  prompt block, so it is covered by the first case.
\<close>

theorem back_navigation_asymmetric:
  "(render s = Duo_prompt \<or> render s = Duo_code_input \<or> render s = Custom_step
      \<longrightarrow> map_option render (back_button s) = Some Password_step)
   \<and> (render s = Password_step \<longrightarrow> map_option render (back_button s) = Some Email_step)"
  by (auto simp: back_button_def render_def handleBackClick_def password_back_onClick_def
           split: if_splits)

theorem back_navigation_asymmetric_witness:
  "render custom_form_filled = Custom_step
   \<and> map_option render (back_button custom_form_filled) = Some Password_step
   \<and> render password_entered = Password_step
   \<and> map_option render (back_button password_entered) = Some Email_step"
  using back_navigation_asymmetric [of custom_form_filled]
        back_navigation_asymmetric [of password_entered]
  by (simp add: render_def custom_form_filled_def password_entered_def initial_app_def)

text \<open>
  C10. When the password is the empty string the sign-in handler returns at once: the
  state is the one it was given, every field of it, and no request has been added to
  those sent, so no query was issued and no loop was started.
\<close>

theorem empty_password_returns_unchanged:
  "password s = '''' \<Longrightarrow> handleSignInClick net isContinuation s w = (s, w)"
  by (simp add: handleSignInClick_def)

theorem empty_password_returns_unchanged_witness:
  "password initial_app = ''''
   \<and> handleSignInClick only_success False initial_app [] = (initial_app, [])"
  using empty_password_returns_unchanged [of initial_app only_success False "[]"]
  by (simp add: initial_app_def)

section \<open>Claims about the polling loop\<close>

text \<open>
  C5. A run of the sign-in handler in which every reply has status \<open>pending\<close>, the
  password not being empty: the loop ends with \<open>attempts\<close> at 60 and \<open>continuePolling\<close>
  still set, the handler has sent exactly 60 requests, all of them the same status
  query, and it leaves the error flag set and the message
  \<open>Authentication timed out. Please try again.\<close>
\<close>

theorem pending_only_run_times_out:
  assumes "\<forall>w. \<exists>r. net w = Inr r \<and> status r = ''pending''"
    and "password s \<noteq> ''''"
  shows "snd (handleSignInClick net isContinuation s w) =
           w @ replicate 60 (auth_request (email s) (password s) (duoCode s) '''' s)
       \<and> length (snd (handleSignInClick net isContinuation s w)) = length w + 60
       \<and> fst (snd (poll_loop net s fresh_session w)) = \<lparr>attempts = 60, continuePolling = True\<rparr>
       \<and> isError (fst (handleSignInClick net isContinuation s w))
       \<and> authMessage (fst (handleSignInClick net isContinuation s w)) =
           ''Authentication timed out. Please try again.''"
proof -
  define s1 where "s1 = (if \<not> isContinuation
                  then s\<lparr>isSubmitting := True, authMessage := '''', isError := False,
                         isPasswordStep := False, isDuoMobileStep := True,
                         showDuoCodeInput := False\<rparr>
                  else s)"
  have fresh: "continuePolling fresh_session" "attempts fresh_session < maxAttempts"
    by (simp_all add: fresh_session_def maxAttempts_def)
  have run: "poll_loop net s' fresh_session w =
          (awaiting s', \<lparr>attempts = 60, continuePolling = True\<rparr>,
           w @ replicate 60 (auth_request (email s') (password s') (duoCode s') '''' s'))" for s'
    using poll_loop_only_pending [OF assms(1) fresh, of s' w]
    by (simp add: fresh_session_def maxAttempts_def)
  have same: "auth_request (email s1) (password s1) (duoCode s1) '''' s1 =
              auth_request (email s) (password s) (duoCode s) '''' s"
    by (simp add: s1_def auth_request_def)
  have h: "handleSignInClick net isContinuation s w =
          ((awaiting s1)\<lparr>isError := True,
                          authMessage := ''Authentication timed out. Please try again.''\<rparr>,
           w @ replicate 60 (auth_request (email s) (password s) (duoCode s) '''' s))"
    using assms(2) run [of s1] unfolding same
    by (simp add: handleSignInClick_def Let_def s1_def [symmetric] fresh_session_def
                  maxAttempts_def)
  show ?thesis
    by (simp add: h run)
qed

theorem pending_only_run_times_out_witness:
  "password password_entered \<noteq> ''''
   \<and> length (snd (handleSignInClick only_pending False password_entered [])) = 60
   \<and> isError (fst (handleSignInClick only_pending False password_entered []))
   \<and> authMessage (fst (handleSignInClick only_pending False password_entered [])) =
       ''Authentication timed out. Please try again.''"
proof -
  have pend: "\<forall>w. \<exists>r. only_pending w = Inr r \<and> status r = ''pending''"
    by (simp add: only_pending_def)
  have pw: "password password_entered \<noteq> ''''"
    by (simp add: password_entered_def initial_app_def)
  show ?thesis
    using pw pending_only_run_times_out [OF pend pw, of False "[]"] by simp
qed

text \<open>
  C2. The busy flag on the timeout path. The handler clears \<open>isSubmitting\<close> only when
  \<open>continuePolling\<close> is false, which is the case when the loop body stopped the loop
  (\<open>classifier_halt_clears_busy_flag\<close>); after 60 \<open>pending\<close> replies it is still true,
  so the run below, started from the password step, returns with the timeout message
  shown and the busy flag still set.
\<close>

theorem timeout_leaves_busy_flag_set:
  "isSubmitting (fst (handleSignInClick only_pending False password_entered []))
   \<and> \<not> isSubmitting password_entered
   \<and> authMessage (fst (handleSignInClick only_pending False password_entered [])) =
       ''Authentication timed out. Please try again.''"
proof -
  have fresh: "continuePolling fresh_session" "attempts fresh_session < maxAttempts"
    by (simp_all add: fresh_session_def maxAttempts_def)
  have pend: "\<forall>w. \<exists>r. only_pending w = Inr r \<and> status r = ''pending''"
    by (simp add: only_pending_def)
  have pw: "password password_entered \<noteq> ''''"
    by (simp add: password_entered_def initial_app_def)
  show ?thesis
    using pw poll_loop_only_pending [OF pend fresh]
    by (simp add: handleSignInClick_def Let_def fresh_session_def maxAttempts_def awaiting_def
                  password_entered_def initial_app_def)
qed

text \<open>
  C6. When the transport fails (either await of the query rejects), \<open>get_auth_status\<close>
  still returns a value: the reply with status \<open>error\<close> and message
  \<open>Network error or server is down.\<close> The loop body sends that reply to its last
  branch: polling stops, the error flag is set and the message is that text. A loop
  whose query fails so ends after that one request.
\<close>

theorem transport_fault_becomes_error_reply:
  "(net (w @ [auth_request em pw code cinput s]) = Inl f \<longrightarrow>
      get_auth_status net em pw code cinput s w =
        (\<lparr>status = ''error'', message = Some ''Network error or server is down.'', data = None\<rparr>,
         w @ [auth_request em pw code cinput s])
      \<and> classify (fst (get_auth_status net em pw code cinput s w)) s' p =
          (s'\<lparr>isError := True, authMessage := ''Network error or server is down.''\<rparr>,
           p\<lparr>continuePolling := False\<rparr>))
   \<and> (net (w @ [auth_request (email s) (password s) (duoCode s) '''' s]) = Inl f \<longrightarrow>
      poll_loop net s p w =
        (s\<lparr>isError := True, authMessage := ''Network error or server is down.''\<rparr>,
         p\<lparr>continuePolling := False\<rparr>,
         w @ [auth_request (email s) (password s) (duoCode s) '''' s]))"
proof (rule conjI; rule impI)
  assume a: "net (w @ [auth_request em pw code cinput s]) = Inl f"
  have unknown: "status network_error \<notin> set known_statuses"
    by (simp add: network_error_def known_statuses_def)
  have g: "get_auth_status net em pw code cinput s w =
             (network_error, w @ [auth_request em pw code cinput s])"
    using a by (simp add: get_auth_status_def Let_def)
  show "get_auth_status net em pw code cinput s w =
        (\<lparr>status = ''error'', message = Some ''Network error or server is down.'', data = None\<rparr>,
         w @ [auth_request em pw code cinput s])
      \<and> classify (fst (get_auth_status net em pw code cinput s w)) s' p =
          (s'\<lparr>isError := True, authMessage := ''Network error or server is down.''\<rparr>,
           p\<lparr>continuePolling := False\<rparr>)"
    unfolding g using classify_unknown [OF unknown, of s' p]
    by (simp add: network_error_def)
next
  assume a: "net (w @ [auth_request (email s) (password s) (duoCode s) '''' s]) = Inl f"
  have unknown: "status network_error \<notin> set known_statuses"
    by (simp add: network_error_def known_statuses_def)
  have g: "fst (get_auth_status net (email s) (password s) (duoCode s) '''' s w) = network_error"
    using a by (simp add: get_auth_status_reply)
  have c: "classify network_error s p =
          (s\<lparr>isError := True, authMessage := ''Network error or server is down.''\<rparr>,
           p\<lparr>continuePolling := False\<rparr>)"
    using classify_unknown [OF unknown, of s p] by (simp add: network_error_def)
  show "poll_loop net s p w =
        (s\<lparr>isError := True, authMessage := ''Network error or server is down.''\<rparr>,
         p\<lparr>continuePolling := False\<rparr>,
         w @ [auth_request (email s) (password s) (duoCode s) '''' s])"
    using poll_loop_halts [of net s w p] by (simp add: g c)
qed

theorem transport_fault_becomes_error_reply_witness:
  "always_down ([] @ [auth_request ''a@b.com'' ''p'' '''' '''' password_entered]) = Inl FetchRejected
   \<and> fst (get_auth_status always_down ''a@b.com'' ''p'' '''' '''' password_entered []) =
       \<lparr>status = ''error'', message = Some ''Network error or server is down.'', data = None\<rparr>
   \<and> isError (fst (poll_loop always_down password_entered fresh_session []))
   \<and> \<not> continuePolling (fst (snd (poll_loop always_down password_entered fresh_session [])))
   \<and> length (snd (snd (poll_loop always_down password_entered fresh_session []))) = 1"
proof -
  have a: "always_down ([] @ [auth_request ''a@b.com'' ''p'' '''' '''' password_entered])
             = Inl FetchRejected"
    by (simp add: always_down_def)
  have b: "always_down ([] @ [auth_request (email password_entered) (password password_entered)
                                 (duoCode password_entered) '''' password_entered])
             = Inl FetchRejected"
    by (simp add: always_down_def)
  show ?thesis
    using a b
      transport_fault_becomes_error_reply
        [of always_down "[]" "''a@b.com''" "''p''" "''''" "''''" password_entered FetchRejected
            password_entered fresh_session]
    by simp
qed

text \<open>
  C7, as the code has it. For a reply whose status is none of the eight strings the loop
  body knows (the status \<open>error\<close> of a failed transport among them): polling stops,
  \<open>attempts\<close> is left as it was, the error flag is set, no step flag is written (the
  block rendered stays the same), and the message is the reply's own message when that
  is there and not empty, the text \<open>An unexpected error occurred. Please try again.\<close>
  when the message is absent or the empty string.
\<close>

theorem unknown_status_is_terminal_error:
  assumes "status r \<notin> set known_statuses"
  shows "\<not> continuePolling (snd (classify r s p))
       \<and> attempts (snd (classify r s p)) = attempts p
       \<and> isError (fst (classify r s p))
       \<and> authMessage (fst (classify r s p)) =
           (case message r of
              Some m \<Rightarrow> if m \<noteq> '''' then m
                        else ''An unexpected error occurred. Please try again.''
            | None \<Rightarrow> ''An unexpected error occurred. Please try again.'')
       \<and> fst (classify r s p) =
           s\<lparr>isError := True, authMessage := authMessage (fst (classify r s p))\<rparr>
       \<and> render (fst (classify r s p)) = render s"
  using assms by (simp add: classify_unknown render_def split: option.split)

theorem unknown_status_is_terminal_error_witness:
  "status \<lparr>status = ''locked'', message = Some ''Account locked.'', data = None\<rparr>
     \<notin> set known_statuses
   \<and> \<not> continuePolling
         (snd (classify \<lparr>status = ''locked'', message = Some ''Account locked.'', data = None\<rparr>
                 password_entered fresh_session))
   \<and> authMessage
         (fst (classify \<lparr>status = ''locked'', message = Some ''Account locked.'', data = None\<rparr>
                 password_entered fresh_session)) = ''Account locked.''"
proof -
  have u: "status \<lparr>status = ''locked'', message = Some ''Account locked.'', data = None\<rparr>
             \<notin> set known_statuses"
    by (simp add: known_statuses_def)
  show ?thesis
    using u unknown_status_is_terminal_error [OF u, of password_entered fresh_session]
    by simp
qed

text \<open>
  C7, as the claim has it, fails where the message is there but empty: the claim shows
  the empty message, the code shows the fixed text.
\<close>

theorem unknown_status_empty_message_counterexample:
  "status error_empty_message \<notin> set known_statuses
   \<and> message error_empty_message = Some ''''
   \<and> authMessage (fst (classify error_empty_message password_entered fresh_session)) =
       ''An unexpected error occurred. Please try again.''
   \<and> authMessage (fst (classify error_empty_message password_entered fresh_session)) \<noteq> ''''"
  by (simp add: error_empty_message_def known_statuses_def classify_def Let_def)

section \<open>Claims about what the requests carry\<close>

text \<open>
  C1, as the code has it. A custom-step submission with a password that is not empty
  sends one status query carrying the submitted \<open>customInput\<close> and an empty \<open>duoCode\<close>,
  and then starts a new run of the loop, as a continuation, which sends between 1 and 60
  queries, each carrying an empty \<open>customInput\<close> and the \<open>duoCode\<close> held in the state.
  The run of the loop before it has ended: a loop that receives the \<open>custom\<close> status
  with \<open>has_input\<close> true stops at that reply and shows the custom block.
\<close>

theorem custom_submit_one_query_then_new_loop:
  "(password s \<noteq> '''' \<longrightarrow>
      (\<exists>n. 1 \<le> n \<and> n \<le> 60
         \<and> snd (handleCustomSubmit net s w) =
             w @ auth_request (email s) (password s) '''' (customInput s) s
               # replicate n (auth_request (email s) (password s) (duoCode s) '''' s)))
   \<and> sent_field ''customInput'' (auth_request (email s) (password s) '''' (customInput s) s)
       = Some (customInput s)
   \<and> sent_field ''duoCode'' (auth_request (email s) (password s) '''' (customInput s) s)
       = Some ''''
   \<and> sent_field ''customInput'' (auth_request (email s) (password s) (duoCode s) '''' s)
       = Some ''''
   \<and> sent_field ''duoCode'' (auth_request (email s) (password s) (duoCode s) '''' s)
       = Some (duoCode s)
   \<and> (net (w @ [auth_request (email s) (password s) (duoCode s) '''' s]) = Inr r
        \<and> status r = ''custom'' \<and> data r = Some d \<and> has_input d \<longrightarrow>
        \<not> continuePolling (fst (snd (poll_loop net s p w)))
        \<and> isCustomStep (fst (poll_loop net s p w))
        \<and> snd (snd (poll_loop net s p w)) =
            w @ [auth_request (email s) (password s) (duoCode s) '''' s])"
proof -
  have first: "password s \<noteq> '''' \<longrightarrow>
      (\<exists>n. 1 \<le> n \<and> n \<le> 60
         \<and> snd (handleCustomSubmit net s w) =
             w @ auth_request (email s) (password s) '''' (customInput s) s
               # replicate n (auth_request (email s) (password s) (duoCode s) '''' s))"
    using handleCustomSubmit_requests [of s net w] by (auto simp: maxAttempts_def)
  have halts: "\<not> continuePolling (fst (snd (poll_loop net s p w)))
        \<and> isCustomStep (fst (poll_loop net s p w))
        \<and> snd (snd (poll_loop net s p w)) =
            w @ [auth_request (email s) (password s) (duoCode s) '''' s]"
    if a: "net (w @ [auth_request (email s) (password s) (duoCode s) '''' s]) = Inr r
        \<and> status r = ''custom'' \<and> data r = Some d \<and> has_input d"
  proof -
    have g: "fst (get_auth_status net (email s) (password s) (duoCode s) '''' s w) = r"
      using a by (simp add: get_auth_status_reply)
    have c: "classify r s p =
           (s\<lparr>customStepData := d, isPasswordStep := False, isDuoMobileStep := False,
              isCustomStep := True, authMessage := '''', isSubmitting := False\<rparr>,
            p\<lparr>continuePolling := False\<rparr>)"
      using a by (simp add: classify_custom_input)
    show ?thesis
      using poll_loop_halts [of net s w p] by (simp add: g c)
  qed
  show ?thesis
    using first halts by (simp add: auth_request_fields)
qed

theorem custom_submit_one_query_then_new_loop_witness:
  "password custom_form_filled \<noteq> ''''
   \<and> snd (handleCustomSubmit only_success custom_form_filled []) =
       [auth_request ''a@b.com'' ''p'' '''' ''x'' custom_form_filled,
        auth_request ''a@b.com'' ''p'' ''000000'' '''' custom_form_filled]"
proof -
  have pw: "password custom_form_filled \<noteq> ''''"
    by (simp add: custom_form_filled_def initial_app_def)
  have run: "snd (handleCustomSubmit only_success custom_form_filled []) =
       [auth_request ''a@b.com'' ''p'' '''' ''x'' custom_form_filled,
        auth_request ''a@b.com'' ''p'' ''000000'' '''' custom_form_filled]"
    by code_simp
  show ?thesis
    using pw run
      custom_submit_one_query_then_new_loop [of custom_form_filled only_success "[]"]
    by blast
qed

text \<open>
  C1, as the claim has it, fails: after a Duo code was entered and a custom form filled
  in, the one query of the new run of the loop carries an empty \<open>customInput\<close>, not the
  submitted one, and the Duo code of the state, not an empty one.
\<close>

theorem custom_submit_loop_queries_counterexample:
  "map (sent_field ''customInput'') (snd (handleCustomSubmit only_success custom_form_filled []))
     = [Some ''x'', Some '''']
   \<and> map (sent_field ''duoCode'') (snd (handleCustomSubmit only_success custom_form_filled []))
     = [Some '''', Some ''000000'']
   \<and> customInput custom_form_filled = ''x''
   \<and> sent_field ''customInput'' (last (snd (handleCustomSubmit only_success custom_form_filled [])))
     \<noteq> Some (customInput custom_form_filled)
   \<and> sent_field ''duoCode'' (last (snd (handleCustomSubmit only_success custom_form_filled [])))
     \<noteq> Some ''''"
  by code_simp

text \<open>
  C9, as the code has it. The effect run on mount reads the first segment of the path:
  when it is one or more digits it becomes \<open>userIdRef.current\<close>, otherwise the cell keeps
  its initial value, the empty string. No handler writes the cell, and every request
  sent afterwards (status queries and alerts) carries the key \<open>user_id\<close> with the value
  of the cell: the segment, or the empty string when there was no numeric segment.
\<close>

theorem session_identifier_in_every_request:
  assumes "CHR ''/'' \<notin> set seg" and "rest = [] \<or> hd rest = CHR ''/''"
    and "userId s = userId (useEffect_mount (CHR ''/'' # seg @ rest) initial_app)"
  shows "userId s = (if digits_only seg then seg else '''')
       \<and> (\<forall>r \<in> set (drop (length w) (snd (handleSignInClick net isContinuation s w))).
            sent_field ''user_id'' r = Some (userId s))
       \<and> (\<forall>r \<in> set (drop (length w) (snd (handleCustomSubmit net s w))).
            sent_field ''user_id'' r = Some (userId s))
       \<and> (\<forall>r \<in> set (drop (length w) (send_alert_notification msg s w)).
            sent_field ''user_id'' r = Some (userId s))
       \<and> userId (fst (handleSignInClick net isContinuation s w)) = userId s
       \<and> userId (fst (handleCustomSubmit net s w)) = userId s
       \<and> userId (handleNextClick s) = userId s
       \<and> userId (handleBackClick s) = userId s
       \<and> userId (password_back_onClick s) = userId s"
proof -
  have mount: "userId s = (if digits_only seg then seg else '''')"
    using assms(3) firstPart_of_path [OF assms(1,2)]
    by (simp add: useEffect_mount_def initial_app_def digits_only_def)
  obtain n where sign: "snd (handleSignInClick net isContinuation s w) =
      w @ replicate n (auth_request (email s) (password s) (duoCode s) '''' s)"
    using handleSignInClick_requests [of s net isContinuation w] by blast
  obtain m where custom: "snd (handleCustomSubmit net s w) =
      w @ auth_request (email s) (password s) '''' (customInput s) s
        # replicate m (auth_request (email s) (password s) (duoCode s) '''' s)"
    using handleCustomSubmit_requests [of s net w] by blast
  have alert: "\<forall>r \<in> set (drop (length w) (send_alert_notification msg s w)).
            sent_field ''user_id'' r = Some (userId s)"
    by (simp add: send_alert_notification_def sent_field_def)
  show ?thesis
    using mount alert
    by (simp add: sign custom auth_request_fields handleSignInClick_userId
                  handleCustomSubmit_userId handleNextClick_def handleBackClick_def
                  password_back_onClick_def)
qed

theorem session_identifier_in_every_request_witness:
  "CHR ''/'' \<notin> set ''42''
   \<and> userId (useEffect_mount ''/42/x'' initial_app) = ''42''
   \<and> userId (useEffect_mount ''/login'' initial_app) = ''''
   \<and> map (sent_field ''user_id'')
         (snd (handleSignInClick only_success False
                 ((useEffect_mount ''/42/x'' initial_app)\<lparr>password := ''p''\<rparr>) []))
       = [Some ''42'']"
proof -
  have seg: "CHR ''/'' \<notin> set ''42''" and rest: "''/x'' = [] \<or> hd ''/x'' = CHR ''/''"
    by simp_all
  have seg': "CHR ''/'' \<notin> set ''login''" and rest': "[] = [] \<or> hd [] = CHR ''/''"
    by simp_all
  have u: "userId ((useEffect_mount ''/42/x'' initial_app)\<lparr>password := ''p''\<rparr>) =
           userId (useEffect_mount (CHR ''/'' # ''42'' @ ''/x'') initial_app)"
    by simp
  have u': "userId (useEffect_mount ''/login'' initial_app) =
           userId (useEffect_mount (CHR ''/'' # ''login'' @ []) initial_app)"
    by simp
  have d: "digits_only ''42''" "\<not> digits_only ''login''"
    by (simp_all add: digits_only_def is_digit_def)
  have sent: "map (sent_field ''user_id'')
         (snd (handleSignInClick only_success False
                 ((useEffect_mount ''/42/x'' initial_app)\<lparr>password := ''p''\<rparr>) []))
       = [Some ''42'']"
    by code_simp
  show ?thesis
    using seg sent d
      session_identifier_in_every_request [OF seg rest u, of "[]" only_success False]
      session_identifier_in_every_request [OF seg' rest' u']
    by simp
qed

text \<open>
  C9, as the claim has it, fails in its last part: with a first segment that is not
  numeric the key \<open>user_id\<close> is not left out of the request, it is sent with the empty
  string as its value.
\<close>

theorem user_id_not_omitted_counterexample:
  "map (sent_field ''user_id'')
     (snd (handleSignInClick only_success False
             ((useEffect_mount ''/login'' initial_app)\<lparr>password := ''p''\<rparr>) []))
     = [Some '''']
   \<and> map body
     (snd (handleSignInClick only_success False
             ((useEffect_mount ''/login'' initial_app)\<lparr>password := ''p''\<rparr>) []))
     = [[(''email'', ''''), (''password'', ''p''), (''duoCode'', ''''), (''customInput'', ''''),
         (''user_id'', '''')]]"
  by code_simp

end
